theory Spec2Isabelle
  imports Main "HOL-Library.Word"
begin

section \<open>Platform values\<close>

text \<open>
  A \<^verbatim>\<open>Buffer\<close> is a list of bytes and a \<^verbatim>\<open>Date\<close> is the integer its
  \<^verbatim>\<open>getTime()\<close> returns. A promise is modelled by the value it settles to:
  \<open>Inl\<close> the rejection, \<open>Inr\<close> the fulfilment. A thrown value is an \<open>error\<close>:
  \<open>Error\<close> and \<open>TypeError\<close> carry their message, \<open>SystemError\<close> the code of a
  failure reported by the file system (\<^verbatim>\<open>ENOENT\<close>, \<^verbatim>\<open>EACCES\<close>, ...).
\<close>

type_synonym bytes = "8 word list"

datatype error = Error string | TypeError string | SystemError string

datatype 'a nullable = Null | Undefined | Val 'a

text \<open>
  The result of \<^verbatim>\<open>RegExp.prototype.exec\<close>: the matched text first, then one slot per
  capture group (\<open>None\<close> for a group that took no part: \<^verbatim>\<open>undefined\<close>).
\<close>

type_synonym RegExpExecArray = "string option list"

text \<open>
  A \<^verbatim>\<open>RegExp\<close> object. Its flags and its compiled pattern never change; the pattern
  is the function \<open>re_matcher\<close>, which searches a string from a start index and gives
  the match array and the index where the match ends. The one mutable property,
  \<^verbatim>\<open>lastIndex\<close>, lives in the world under the object's identity \<open>re_id\<close>, so two
  rules holding the same object share it.
\<close>

record regexp =
  re_id :: nat
  re_matcher :: "string \<Rightarrow> nat \<Rightarrow> (RegExpExecArray \<times> nat) option"
  re_global :: bool
  re_sticky :: bool

text \<open>
  What the engine can observe of the process it runs in: the outcome of \<^verbatim>\<open>fs.stat\<close>
  (the modification time) and of \<^verbatim>\<open>fs.readFile\<close> at every path, the clock read by
  \<^verbatim>\<open>new Date()\<close>, and the \<^verbatim>\<open>lastIndex\<close> of every \<^verbatim>\<open>RegExp\<close> object. Rule
  actions receive the world and return it changed. The clock is read, never advanced, by the
  engine itself.
\<close>

record world =
  fs_stat :: "string \<Rightarrow> error + int"
  fs_readFile :: "string \<Rightarrow> error + bytes"
  now :: int
  lastIndex :: "nat \<Rightarrow> nat"

text \<open>
  \<^verbatim>\<open>Buffer.toString('utf-8')\<close> and \<^verbatim>\<open>Buffer.from(s, 'utf-8')\<close> are taken as
  parameters.
\<close>

record utf8 =
  Buffer_toString :: "bytes \<Rightarrow> string"
  Buffer_from :: "string \<Rightarrow> bytes"

text \<open>
  \<^verbatim>\<open>RegExp.prototype.exec\<close>: a pattern with the global or the sticky flag starts at
  \<^verbatim>\<open>lastIndex\<close>, stores the end of the match there, and resets it to 0 when nothing
  matches; a pattern with neither flag starts at 0 and leaves \<^verbatim>\<open>lastIndex\<close> alone.
  \<^verbatim>\<open>test\<close> is \<^verbatim>\<open>exec\<close> compared with \<^verbatim>\<open>null\<close>.
\<close>

definition RegExp_exec :: "regexp \<Rightarrow> string \<Rightarrow> world \<Rightarrow> RegExpExecArray option \<times> world" where
  "RegExp_exec r s w =
     (if re_global r \<or> re_sticky r then
        (case (if length s < lastIndex w (re_id r) then None
               else re_matcher r s (lastIndex w (re_id r))) of
           None \<Rightarrow> (None, w\<lparr>lastIndex := (lastIndex w)(re_id r := 0)\<rparr>)
         | Some (m, e) \<Rightarrow> (Some m, w\<lparr>lastIndex := (lastIndex w)(re_id r := e)\<rparr>))
      else
        (case re_matcher r s 0 of
           None \<Rightarrow> (None, w)
         | Some (m, e) \<Rightarrow> (Some m, w)))"

definition RegExp_test :: "regexp \<Rightarrow> string \<Rightarrow> world \<Rightarrow> bool \<times> world" where
  "RegExp_test r s w = (case RegExp_exec r s w of (m, w') \<Rightarrow> (m \<noteq> None, w'))"

text \<open>
  A \<open>string\<close> of the model is a JavaScript string whose code units are all below 256, one
  \<open>char\<close> each; every path, name, message and template of the sources is of that kind.

  \<^verbatim>\<open>parseInt(s, 10)\<close>: leading white space, an optional sign, then the longest run of
  decimal digits. Of the white space JavaScript strips, the seven characters below are
  those a \<open>char\<close> can hold. The result is a number: \<^verbatim>\<open>NaN\<close> without a digit, the
  integer itself while its magnitude is below \<open>2 ^ 53\<close>, where a double is exact, and beyond
  that a double of at least that magnitude, of which the model keeps no more (\<open>Beyond\<close>).
\<close>

datatype number = NaN | Integer int | Beyond

definition isWhiteSpace :: "char \<Rightarrow> bool" where
  "isWhiteSpace c =
     (c \<in> set [CHR '' '', CHR 0x09, CHR 0x0A, CHR 0x0B, CHR 0x0C, CHR 0x0D, CHR 0xA0])"

definition isDigit :: "char \<Rightarrow> bool" where
  "isDigit c = (48 \<le> (of_char c :: nat) \<and> (of_char c :: nat) \<le> 57)"

definition digitsValue :: "string \<Rightarrow> int" where
  "digitsValue ds = foldl (\<lambda>acc c. 10 * acc + (int (of_char c :: nat) - 48)) 0 ds"

definition parseInt :: "string \<Rightarrow> number" where
  "parseInt s =
     (let t = dropWhile isWhiteSpace s;
          sgn = (case t of c # _ \<Rightarrow> if c = CHR ''-'' then - 1 else 1 | [] \<Rightarrow> 1);
          u = (case t of c # cs \<Rightarrow> if c = CHR ''-'' \<or> c = CHR ''+'' then cs else t | [] \<Rightarrow> t);
          ds = takeWhile isDigit u
      in if ds = [] then NaN
         else if digitsValue ds < 2 ^ 53 then Integer (sgn * digitsValue ds)
         else Beyond)"

text \<open>
  \<^verbatim>\<open>m[k]\<close> on a match array, then the conversion to a string that
  \<^verbatim>\<open>String.prototype.replace\<close> applies to what its callback returns: an index that is
  \<^verbatim>\<open>NaN\<close>, negative or out of range, and a group that took no part, give
  \<^verbatim>\<open>undefined\<close>, printed as such. An array has fewer than \<open>2 ^ 32\<close> elements, so an
  index of magnitude \<open>2 ^ 53\<close> or more is out of range.
\<close>

definition groupText :: "RegExpExecArray \<Rightarrow> number \<Rightarrow> string" where
  "groupText m k =
     (case k of
        NaN \<Rightarrow> ''undefined''
      | Beyond \<Rightarrow> ''undefined''
      | Integer i \<Rightarrow>
          if 0 \<le> i \<and> nat i < length m
          then (case m ! nat i of None \<Rightarrow> ''undefined'' | Some g \<Rightarrow> g)
          else ''undefined'')"

text \<open>
  \<^verbatim>\<open>s.replace(search, callback)\<close> with a string to search for: the first occurrence
  of \<open>search\<close> in \<open>s\<close> is replaced, and \<open>s\<close> is returned as it is when there is none.
\<close>

fun String_replace :: "string \<Rightarrow> string \<Rightarrow> string \<Rightarrow> string" where
  "String_replace [] search rep = (if search = [] then rep else [])"
| "String_replace (c # cs) search rep =
     (if take (length search) (c # cs) = search then rep @ drop (length search) (c # cs)
      else c # String_replace cs search rep)"

section \<open>The file system facade\<close>

definition stat :: "world \<Rightarrow> string \<Rightarrow> error + int" where
  "stat w p = (case fs_stat w p of Inl err \<Rightarrow> Inl err | Inr stats \<Rightarrow> Inr stats)"

definition readFile :: "world \<Rightarrow> string \<Rightarrow> error + bytes" where
  "readFile w p = (case fs_readFile w p of Inl err \<Rightarrow> Inl err | Inr buffer \<Rightarrow> Inr buffer)"

definition mtimeSafe :: "world \<Rightarrow> string \<Rightarrow> int option" where
  "mtimeSafe w p = (case fs_stat w p of Inl err \<Rightarrow> None | Inr stats \<Rightarrow> Some stats)"

section \<open>Rules\<close>

record NamedDependency =
  nd_name :: "string option"
  nd_value :: string

record Entry =
  e_name :: string
  e_contents :: "error + bytes"
  e_contentsAsString :: "error + string"
  e_path :: "string option"
  e_originalPath :: "string option"
  e_mtime :: "(error + int) option"

text \<open>
  An \<open>Entry\<close> is an object with a name and its two promised contents. The three optional
  fields are those of a \<^verbatim>\<open>FileEntry\<close>; \<open>e_mtime\<close> is \<open>None\<close> when the object has no
  \<^verbatim>\<open>mtime\<close> property that is a promise.

  The context handed to an action is an open object, since the constructor assigns
  properties named by the rule's dependencies. \<open>c_own\<close> maps the names of its own
  properties to their values. \<open>c_proto\<close> is the entry that an assignment to
  \<^verbatim>\<open>__proto__\<close> made the prototype of the object, \<open>None\<close> while the prototype is
  still the one of the class. The properties every object inherits from
  \<^verbatim>\<open>Object.prototype\<close> are left out.
\<close>

datatype jsval =
  JUndefined
  | JString string
  | JEntry Entry
  | JEntries "Entry list"
  | JPromise "error + int"
  | JBuffer "error + bytes"
  | JText "error + string"

record Context =
  c_own :: "string \<Rightarrow> jsval option"
  c_proto :: "Entry option"

text \<open>The properties of an entry, as a context whose prototype it is inherits them.\<close>

definition entryProperty :: "Entry \<Rightarrow> string \<Rightarrow> jsval option" where
  "entryProperty e k =
     (if k = ''name'' then Some (JString (e_name e))
      else if k = ''contents'' then Some (JBuffer (e_contents e))
      else if k = ''contentsAsString'' then Some (JText (e_contentsAsString e))
      else if k = ''path'' then map_option JString (e_path e)
      else if k = ''originalPath'' then map_option JString (e_originalPath e)
      else if k = ''mtime'' then map_option JPromise (e_mtime e)
      else None)"

text \<open>\<^verbatim>\<open>context[k]\<close>: the context's own property, or else the one it inherits.\<close>

definition getProperty :: "Context \<Rightarrow> string \<Rightarrow> jsval option" where
  "getProperty context k =
     (case c_own context k of
        Some v \<Rightarrow> Some v
      | None \<Rightarrow> (case c_proto context of None \<Rightarrow> None | Some e \<Rightarrow> entryProperty e k))"

datatype action_result = ResultBuffer bytes | ResultString string | ResultEntry Entry

type_synonym RuleAction = "Context \<Rightarrow> world \<Rightarrow> (error + action_result) \<times> world"

type_synonym ContextDecorator = "Context \<Rightarrow> world \<Rightarrow> (error + Context) \<times> world"

text \<open>
  What a dependency generator function may return: \<^verbatim>\<open>null\<close>, a string, a named
  dependency, or an iterable of strings, named dependencies and \<^verbatim>\<open>null\<close>s. A
  generator function may also throw.
\<close>

datatype generated_item = ItemNull | ItemString string | ItemDependency NamedDependency

datatype generated =
  GenNull
  | GenString string
  | GenDependency NamedDependency
  | GenIterable "generated_item list"

type_synonym DependencyGenerator = "string \<Rightarrow> RegExpExecArray \<Rightarrow> error + generated"

datatype generator = Template string | Function DependencyGenerator

datatype DependencyGeneratorAdapter =
  SimpleDependencyGeneratorAdapter generator
  | NoDependencies
  | CompositeDependencyGeneratorAdapter DependencyGeneratorAdapter DependencyGeneratorAdapter

fun yieldItem :: "generated_item \<Rightarrow> NamedDependency list" where
  "yieldItem ItemNull = []"
| "yieldItem (ItemString s) = [\<lparr>nd_name = None, nd_value = s\<rparr>]"
| "yieldItem (ItemDependency d) = [d]"

text \<open>
  \<open>create\<close> gives what iterating the generator to its end yields: the dependencies in
  yield order, or the error thrown on the way.
\<close>

fun create :: "DependencyGeneratorAdapter \<Rightarrow> string \<Rightarrow> RegExpExecArray \<Rightarrow> error + NamedDependency list" where
  "create (SimpleDependencyGeneratorAdapter (Template t)) input m =
     Inr [\<lparr>nd_name = None, nd_value = String_replace t input (groupText m (parseInt input))\<rparr>]"
| "create (SimpleDependencyGeneratorAdapter (Function g)) input m =
     (case g input m of
        Inl err \<Rightarrow> Inl err
      | Inr GenNull \<Rightarrow> Inr []
      | Inr (GenString s) \<Rightarrow> Inr [\<lparr>nd_name = None, nd_value = s\<rparr>]
      | Inr (GenDependency d) \<Rightarrow> Inr [d]
      | Inr (GenIterable items) \<Rightarrow> Inr (concat (map yieldItem items)))"
| "create NoDependencies input m = Inr []"
| "create (CompositeDependencyGeneratorAdapter first second) input m =
     (case create first input m of
        Inl err \<Rightarrow> Inl err
      | Inr xs \<Rightarrow>
          (case create second input m of
             Inl err \<Rightarrow> Inl err
           | Inr ys \<Rightarrow> Inr (xs @ ys)))"

definition neitherNullNorUndefined :: "'a nullable \<Rightarrow> string \<Rightarrow> error + unit" where
  "neitherNullNorUndefined x nm =
     (case x of
        Null \<Rightarrow> Inl (TypeError (nm @ '' must not be null!''))
      | Undefined \<Rightarrow> Inl (TypeError (nm @ '' must not be undefined!''))
      | Val _ \<Rightarrow> Inr ())"

record Rule =
  r_pattern :: regexp
  r_action :: "RuleAction option"
  r_decorators :: "ContextDecorator list"
  r_dependencies :: DependencyGeneratorAdapter

text \<open>
  The constructor of \<open>Rule\<close>. Its third parameter has the type
  \<^verbatim>\<open>DependencyGeneratorAdapter|null\<close>: \<open>None\<close> is \<^verbatim>\<open>null\<close>.
\<close>

definition Rule_new ::
  "regexp \<Rightarrow> RuleAction option \<Rightarrow> DependencyGeneratorAdapter option \<Rightarrow> ContextDecorator list
     \<Rightarrow> error + Rule" where
  "Rule_new pat act deps decs =
     (case neitherNullNorUndefined (Val pat) ''pattern'' of
        Inl err \<Rightarrow> Inl err
      | Inr _ \<Rightarrow>
          (case neitherNullNorUndefined (case deps of None \<Rightarrow> Null | Some d \<Rightarrow> Val d) ''dependencies'' of
             Inl err \<Rightarrow> Inl err
           | Inr _ \<Rightarrow>
               Inr \<lparr>r_pattern = pat, r_action = act, r_decorators = decs,
                    r_dependencies = (case deps of None \<Rightarrow> NoDependencies | Some d \<Rightarrow> d)\<rparr>))"

definition evalDependencies ::
  "Rule \<Rightarrow> string \<Rightarrow> world \<Rightarrow> (error + NamedDependency list) option \<times> world" where
  "evalDependencies r input w =
     (case RegExp_exec (r_pattern r) input w of
        (None, w') \<Rightarrow> (None, w')
      | (Some m, w') \<Rightarrow> (Some (create (r_dependencies r) input m), w'))"

record RuleBuilder =
  b_pattern :: "string + regexp"
  b_action :: "RuleAction option"
  b_decorators :: "ContextDecorator list"
  b_dependencies :: "DependencyGeneratorAdapter option"

definition RuleBuilder_new :: "string + regexp \<Rightarrow> RuleAction option \<Rightarrow> RuleBuilder" where
  "RuleBuilder_new pat act =
     \<lparr>b_pattern = pat, b_action = act, b_decorators = [], b_dependencies = None\<rparr>"

definition addDependency :: "string + DependencyGenerator \<Rightarrow> RuleBuilder \<Rightarrow> RuleBuilder" where
  "addDependency dependency b =
     (let gen = SimpleDependencyGeneratorAdapter
                  (Function (case dependency of
                               Inl s \<Rightarrow> (\<lambda>input m. Inr (GenString s))
                             | Inr g \<Rightarrow> g))
      in b\<lparr>b_dependencies :=
             (case b_dependencies b of
                None \<Rightarrow> Some gen
              | Some d \<Rightarrow> Some (CompositeDependencyGeneratorAdapter d gen))\<rparr>)"

definition addDecorators :: "ContextDecorator list \<Rightarrow> RuleBuilder \<Rightarrow> RuleBuilder" where
  "addDecorators ds b = b\<lparr>b_decorators := b_decorators b @ ds\<rparr>"

definition insertDecorator :: "int \<Rightarrow> ContextDecorator \<Rightarrow> RuleBuilder \<Rightarrow> RuleBuilder" where
  "insertDecorator index d b =
     (let ds = b_decorators b in
      if int (length ds) \<le> index then b\<lparr>b_decorators := ds @ [d]\<rparr>
      else
        (let start = (if index < 0 then nat (max (int (length ds) + index) 0) else nat index)
         in b\<lparr>b_decorators := take start ds @ d # drop start ds\<rparr>))"

definition setAction :: "RuleAction option \<Rightarrow> RuleBuilder \<Rightarrow> RuleBuilder" where
  "setAction act b = b\<lparr>b_action := act\<rparr>"

text \<open>
  \<open>build\<close> compiles a pattern given as a string with \<^verbatim>\<open>new RegExp\<close>, taken as the
  parameter \<open>compile\<close> (it throws on a malformed pattern), then calls the constructor.
\<close>

definition build :: "(string \<Rightarrow> error + regexp) \<Rightarrow> RuleBuilder \<Rightarrow> error + Rule" where
  "build compile b =
     (case (case b_pattern b of Inl s \<Rightarrow> compile s | Inr r \<Rightarrow> Inr r) of
        Inl err \<Rightarrow> Inl err
      | Inr pat \<Rightarrow> Rule_new pat (b_action b) (b_dependencies b) (b_decorators b))"

section \<open>Pipelines\<close>

text \<open>
  \<^verbatim>\<open>name || input\<close>: the empty string is falsy, as \<^verbatim>\<open>undefined\<close> and
  \<^verbatim>\<open>null\<close> are. \<open>nonEmpty\<close> is \<^verbatim>\<open>name || undefined\<close>.
\<close>

definition orElse :: "string option \<Rightarrow> string \<Rightarrow> string" where
  "orElse nm d = (case nm of None \<Rightarrow> d | Some s \<Rightarrow> if s = [] then d else s)"

definition nonEmpty :: "string option \<Rightarrow> string option" where
  "nonEmpty nm = (case nm of None \<Rightarrow> None | Some s \<Rightarrow> if s = [] then None else Some s)"

record NamedEntry =
  ne_name :: "string option"
  ne_entry :: Entry

text \<open>
  The constructor of \<open>SimpleFileEntry\<close> starts the read (and, without a given time, the
  stat) of the file at once: the promises it stores settle to what the file system gives
  in the world of the call.
\<close>

definition SimpleFileEntry ::
  "utf8 \<Rightarrow> world \<Rightarrow> string \<Rightarrow> string \<Rightarrow> bytes option \<Rightarrow> int option \<Rightarrow> Entry" where
  "SimpleFileEntry u w nm p conts mt =
     (let c = (case conts of None \<Rightarrow> readFile w p | Some b \<Rightarrow> Inr b) in
      \<lparr>e_name = nm,
       e_contents = c,
       e_contentsAsString = (case c of Inl err \<Rightarrow> Inl err | Inr buffer \<Rightarrow> Inr (Buffer_toString u buffer)),
       e_path = Some p,
       e_originalPath = Some p,
       e_mtime = Some (case mt of None \<Rightarrow> stat w p | Some t \<Rightarrow> Inr t)\<rparr>)"

definition getMTime :: "Entry \<Rightarrow> (error + int) option" where
  "getMTime entry = e_mtime entry"

text \<open>
  \<^verbatim>\<open>Promise.all\<close>: all the values in order, or the first rejection. The model has no
  time: every promise is taken as settled when it is awaited, so the rejection that comes
  first is the first of the list.
\<close>

fun Promise_all :: "(error + 'a) list \<Rightarrow> error + 'a list" where
  "Promise_all [] = Inr []"
| "Promise_all (p # ps) =
     (case p of
        Inl err \<Rightarrow> Inl err
      | Inr v \<Rightarrow> (case Promise_all ps of Inl err \<Rightarrow> Inl err | Inr vs \<Rightarrow> Inr (v # vs)))"

text \<open>
  \<^verbatim>\<open>mtimes.sort((a, b) => b.getTime() - a.getTime())\<close>: \<open>a\<close> stays before \<open>b\<close> when
  the comparator is not positive.
\<close>

fun insertSorted :: "int \<Rightarrow> int list \<Rightarrow> int list" where
  "insertSorted a [] = [a]"
| "insertSorted a (b # bs) = (if b - a \<le> 0 then a # b # bs else b # insertSorted a bs)"

definition sortDescending :: "int list \<Rightarrow> int list" where
  "sortDescending xs = foldr insertSorted xs []"

definition composeMTime :: "world \<Rightarrow> Entry list \<Rightarrow> error + int" where
  "composeMTime w entries =
     (if entries = [] then Inr (now w)
      else
        (case Promise_all (map (\<lambda>e. case getMTime e of None \<Rightarrow> Inr (now w) | Some p \<Rightarrow> p) entries) of
           Inl err \<Rightarrow> Inl err
         | Inr mtimes \<Rightarrow> Inr (hd (sortDescending mtimes))))"

text \<open>
  The constructor of \<open>SimpleContext\<close> sets \<^verbatim>\<open>input\<close>, \<^verbatim>\<open>name\<close> and
  \<^verbatim>\<open>entries\<close>, then assigns \<^verbatim>\<open>this[item.name] = item.entry\<close> for every
  dependency with a truthy name, then sets \<^verbatim>\<open>mtime\<close> from whatever the property
  \<^verbatim>\<open>entries\<close> holds by then. An entry object has no \<^verbatim>\<open>length\<close>, so
  \<open>composeMTime\<close> takes it for an empty list.

  The assignment adds or overwrites an own property, for every name but one:
  \<^verbatim>\<open>__proto__\<close> is a setter every object inherits, and assigning an entry to it makes
  the entry the prototype of the context and adds no property.
\<close>

definition bindEntry :: "Context \<Rightarrow> NamedEntry \<Rightarrow> Context" where
  "bindEntry this item =
     (case ne_name item of
        None \<Rightarrow> this
      | Some k \<Rightarrow>
          if k = [] then this
          else if k = ''__proto__'' then this\<lparr>c_proto := Some (ne_entry item)\<rparr>
          else this\<lparr>c_own := (c_own this)(k \<mapsto> JEntry (ne_entry item))\<rparr>)"

definition SimpleContext :: "world \<Rightarrow> string \<Rightarrow> string option \<Rightarrow> NamedEntry list \<Rightarrow> Context" where
  "SimpleContext w input nm entries =
     (let this1 = \<lparr>c_own = [''input'' \<mapsto> JString input,
                            ''name'' \<mapsto> (case nm of None \<Rightarrow> JUndefined | Some s \<Rightarrow> JString s),
                            ''entries'' \<mapsto> JEntries (map ne_entry entries)],
                   c_proto = None\<rparr>;
          this2 = foldl bindEntry this1 entries
      in this2\<lparr>c_own := (c_own this2)(''mtime'' \<mapsto>
           JPromise (case getProperty this2 ''entries'' of
                       Some (JEntries es) \<Rightarrow> composeMTime w es
                     | _ \<Rightarrow> Inr (now w)))\<rparr>)"

text \<open>\<^verbatim>\<open>await context.mtime\<close>.\<close>

definition awaitMTime :: "Context \<Rightarrow> error + int" where
  "awaitMTime context =
     (case getProperty context ''mtime'' of
        Some (JPromise p) \<Rightarrow> p
      | _ \<Rightarrow> Inl (TypeError ''depMTime.getTime is not a function''))"

text \<open>
  The rule set is a \<^verbatim>\<open>Set\<close>, iterated in insertion order: a list. The loop of
  \<open>exec\<close> that selects the rule tests each pattern in turn and stops at the first match.
\<close>

fun findRule :: "Rule list \<Rightarrow> string \<Rightarrow> world \<Rightarrow> Rule option \<times> world" where
  "findRule [] input w = (None, w)"
| "findRule (r # rs) input w =
     (case RegExp_test (r_pattern r) input w of
        (True, w') \<Rightarrow> (Some r, w')
      | (False, w') \<Rightarrow> findRule rs input w')"

text \<open>What \<open>exec\<close> returns for the value an action gave.\<close>

definition toEntry :: "utf8 \<Rightarrow> string \<Rightarrow> action_result \<Rightarrow> Entry" where
  "toEntry u nm actionResult =
     (case actionResult of
        ResultBuffer b \<Rightarrow>
          \<lparr>e_name = nm, e_contents = Inr b, e_contentsAsString = Inr (Buffer_toString u b),
           e_path = None, e_originalPath = None, e_mtime = None\<rparr>
      | ResultString s \<Rightarrow>
          \<lparr>e_name = nm, e_contents = Inr (Buffer_from u s), e_contentsAsString = Inr s,
           e_path = None, e_originalPath = None, e_mtime = None\<rparr>
      | ResultEntry e \<Rightarrow> e)"

text \<open>
  The loop over the dependencies: each is resolved in turn by \<open>ex\<close>, in the world the
  previous one left, and the first failure ends the loop. \<open>None\<close> is a resolution that
  did not return.
\<close>

fun forEachDependency ::
  "(NamedDependency \<Rightarrow> world \<Rightarrow> ((error + Entry) \<times> world) option) \<Rightarrow> NamedDependency list \<Rightarrow> world
     \<Rightarrow> ((error + NamedEntry list) \<times> world) option" where
  "forEachDependency ex [] w = Some (Inr [], w)"
| "forEachDependency ex (d # ds) w =
     (case ex d w of
        None \<Rightarrow> None
      | Some (Inl err, w1) \<Rightarrow> Some (Inl err, w1)
      | Some (Inr entry, w1) \<Rightarrow>
          (case forEachDependency ex ds w1 of
             None \<Rightarrow> None
           | Some (Inl err, w2) \<Rightarrow> Some (Inl err, w2)
           | Some (Inr entries, w2) \<Rightarrow>
               Some (Inr (\<lparr>ne_name = nd_name d, ne_entry = entry\<rparr> # entries), w2)))"

text \<open>
  \<open>Pipeline.exec\<close>. The recursion through the dependencies has no bound in the source, so
  the model counts the depth it may still descend: \<open>None\<close> is a call that needs more.
  Logging has no effect on the result and is left out.
\<close>

fun exec ::
  "nat \<Rightarrow> utf8 \<Rightarrow> Rule list \<Rightarrow> string \<Rightarrow> string option \<Rightarrow> world \<Rightarrow> ((error + Entry) \<times> world) option" where
  "exec 0 u ruleSet input nm w = None"
| "exec (Suc depth) u ruleSet input nm w =
     (case findRule ruleSet input w of
        (rule, w1) \<Rightarrow>
          (let mtime = mtimeSafe w1 input in
           case rule of
             None \<Rightarrow>
               (case mtime of
                  Some t \<Rightarrow> Some (Inr (SimpleFileEntry u w1 (orElse nm input) input None (Some t)), w1)
                | None \<Rightarrow> Some (Inl (Error (''no matching rule for '' @ input)), w1))
           | Some r \<Rightarrow>
               (case evalDependencies r input w1 of
                  (None, w2) \<Rightarrow> Some (Inl (Error (''invalid matching rule for '' @ input)), w2)
                | (Some (Inl err), w2) \<Rightarrow> Some (Inl err, w2)
                | (Some (Inr rawDeps), w2) \<Rightarrow>
                    (case forEachDependency
                            (\<lambda>dependency. exec depth u ruleSet (nd_value dependency) (nonEmpty (nd_name dependency)))
                            rawDeps w2 of
                       None \<Rightarrow> None
                     | Some (Inl err, w3) \<Rightarrow> Some (Inl err, w3)
                     | Some (Inr entries, w3) \<Rightarrow>
                         (case r_action r of
                            None \<Rightarrow> Some (Inl (Error ''default actions not yet supported''), w3)
                          | Some act \<Rightarrow>
                              (let context = SimpleContext w3 input nm entries in
                               case awaitMTime context of
                                 Inl err \<Rightarrow> Some (Inl err, w3)
                               | Inr depMTime \<Rightarrow>
                                   if (case mtime of None \<Rightarrow> False | Some t \<Rightarrow> entries = [] \<or> t > depMTime)
                                   then Some (Inr (SimpleFileEntry u w3 (orElse nm input) input None mtime), w3)
                                   else
                                     (case act context w3 of
                                        (Inl err, w4) \<Rightarrow> Some (Inl err, w4)
                                      | (Inr actionResult, w4) \<Rightarrow>
                                          Some (Inr (toEntry u (orElse nm input) actionResult), w4))))))))"

text \<open>
  \<open>PipelineBuilder.add\<close>: the callback configures a fresh builder, and the rule built
  from it joins the set. Every rule is a new object, so the set never drops one.
\<close>

definition PipelineBuilder_add ::
  "(string \<Rightarrow> error + regexp) \<Rightarrow> string + regexp \<Rightarrow> (RuleBuilder \<Rightarrow> RuleBuilder) \<Rightarrow> Rule list
     \<Rightarrow> error + Rule list" where
  "PipelineBuilder_add compile regex configure ruleSet =
     (case build compile (configure (RuleBuilder_new regex None)) of
        Inl err \<Rightarrow> Inl err
      | Inr r \<Rightarrow> Inr (ruleSet @ [r]))"

section \<open>Example pipelines\<close>

text \<open>
  Concrete inputs on which the theorems below are run. \<open>ascii\<close> is UTF-8 on text without
  characters beyond ASCII. \<open>min_js\<close> is the pattern \<^verbatim>\<open>/^(.*)\.min\.js$/\<close>, whose
  dot matches no line break, and \<open>every_a\<close> the pattern \<^verbatim>\<open>/a/g\<close>. The file system
  of \<open>disk t\<close> holds \<^verbatim>\<open>app.js\<close>, modified at \<open>t\<close>, \<^verbatim>\<open>app.min.js\<close>, modified
  at 20, and \<^verbatim>\<open>secret.js\<close>, which the process may not access; the clock shows 1000.
\<close>

definition ascii :: utf8 where
  "ascii = \<lparr>Buffer_toString = map (\<lambda>b. char_of (unat b)), Buffer_from = map (\<lambda>c. of_nat (of_char c))\<rparr>"

definition min_js :: regexp where
  "min_js =
     \<lparr>re_id = 0,
      re_matcher = (\<lambda>s i. if i = 0 \<and> 7 \<le> length s \<and> drop (length s - 7) s = ''.min.js''
                              \<and> CHR 0x0A \<notin> set (take (length s - 7) s)
                              \<and> CHR 0x0D \<notin> set (take (length s - 7) s)
                           then Some ([Some s, Some (take (length s - 7) s)], length s) else None),
      re_global = False,
      re_sticky = False\<rparr>"

definition every_a :: regexp where
  "every_a =
     \<lparr>re_id = 1,
      re_matcher = (\<lambda>s i. let k = length (takeWhile (\<lambda>c. c \<noteq> CHR ''a'') (drop i s))
                           in if i + k < length s then Some ([Some ''a''], i + k + 1) else None),
      re_global = True,
      re_sticky = False\<rparr>"

definition disk :: "int \<Rightarrow> world" where
  "disk t =
     \<lparr>fs_stat = (\<lambda>p. if p = ''app.js'' then Inr t
                      else if p = ''app.min.js'' then Inr 20
                      else if p = ''secret.js'' then Inl (SystemError ''EACCES'')
                      else Inl (SystemError ''ENOENT'')),
      fs_readFile = (\<lambda>p. if p = ''app.js'' then Inr [0x61, 0x3B]
                          else if p = ''app.min.js'' then Inr [0x61]
                          else if p = ''secret.js'' then Inl (SystemError ''EACCES'')
                          else Inl (SystemError ''ENOENT'')),
      now = 1000,
      lastIndex = (\<lambda>i. 0)\<rparr>"

text \<open>
  The rule \<open>min_rule act ds\<close> derives \<^verbatim>\<open>x.js\<close> from the target \<^verbatim>\<open>x.min.js\<close>
  with the generator function \<^verbatim>\<open>(input, m) => m[1] + '.js'\<close>; \<open>act\<close> is its action
  and \<open>ds\<close> its decorators. \<open>a_rule\<close> has the pattern \<^verbatim>\<open>/a/g\<close> and a generator
  that returns \<^verbatim>\<open>null\<close>.
\<close>

definition first_group_js :: DependencyGenerator where
  "first_group_js input m = Inr (GenString (groupText m (Integer 1) @ ''.js''))"

definition min_rule :: "RuleAction option \<Rightarrow> ContextDecorator list \<Rightarrow> Rule" where
  "min_rule act ds =
     \<lparr>r_pattern = min_js,
      r_action = act,
      r_decorators = ds,
      r_dependencies = SimpleDependencyGeneratorAdapter (Function first_group_js)\<rparr>"

definition no_dependency :: DependencyGenerator where
  "no_dependency input m = Inr GenNull"

definition a_rule :: "RuleAction option \<Rightarrow> Rule" where
  "a_rule act =
     \<lparr>r_pattern = every_a,
      r_action = act,
      r_decorators = [],
      r_dependencies = SimpleDependencyGeneratorAdapter (Function no_dependency)\<rparr>"

text \<open>
  The rule \<open>bundle_rule act\<close> has the pattern \<^verbatim>\<open>/^bundle\.js$/\<close> and the generator
  function \<^verbatim>\<open>() => ['app.js', 'app.min.js']\<close>. The rule set \<open>site\<close> holds it and,
  after it, the rule of \<^verbatim>\<open>x.min.js\<close> with an action whose write fails.
\<close>

definition bundle_js :: regexp where
  "bundle_js =
     \<lparr>re_id = 2,
      re_matcher = (\<lambda>s i. if i = 0 \<and> s = ''bundle.js'' then Some ([Some s], length s) else None),
      re_global = False,
      re_sticky = False\<rparr>"

definition both_sources :: DependencyGenerator where
  "both_sources input m = Inr (GenIterable [ItemString ''app.js'', ItemString ''app.min.js''])"

definition bundle_rule :: "RuleAction option \<Rightarrow> Rule" where
  "bundle_rule act =
     \<lparr>r_pattern = bundle_js,
      r_action = act,
      r_decorators = [],
      r_dependencies = SimpleDependencyGeneratorAdapter (Function both_sources)\<rparr>"

text \<open>
  Actions: \<open>minified\<close> returns a string; \<open>report_path\<close> returns the \<^verbatim>\<open>path\<close> of the
  context it is given; \<open>write_fails\<close> is an action whose write is refused by the file
  system. The decorator \<open>set_path\<close> sets the \<^verbatim>\<open>path\<close> of the context.
\<close>

definition minified :: RuleAction where
  "minified context w = (Inr (ResultString ''min''), w)"

definition report_path :: RuleAction where
  "report_path context w =
     (Inr (ResultString (case getProperty context ''path'' of
                           Some (JString p) \<Rightarrow> p
                         | _ \<Rightarrow> ''no path'')), w)"

definition write_fails :: RuleAction where
  "write_fails context w = (Inl (SystemError ''EACCES''), w)"

definition set_path :: ContextDecorator where
  "set_path context w =
     (Inr (context\<lparr>c_own := (c_own context)(''path'' \<mapsto> JString ''dist/app.min.js'')\<rparr>), w)"

text \<open>The file entry of a path of \<open>disk t\<close> modified at \<open>m\<close>, and an entry built by an action.\<close>

definition file_entry :: "int \<Rightarrow> string \<Rightarrow> int \<Rightarrow> Entry" where
  "file_entry t p m = SimpleFileEntry ascii (disk t) p p None (Some m)"

definition built_entry :: Entry where
  "built_entry = toEntry ascii ''app.min.js'' (ResultString ''min'')"

definition site :: "Rule list" where
  "site = [bundle_rule (Some minified), min_rule (Some write_fails) []]"

section \<open>The engine leaves the file system and the clock alone\<close>

lemma RegExp_exec_frame:
  "fs_stat (snd (RegExp_exec r s w)) = fs_stat w \<and>
   fs_readFile (snd (RegExp_exec r s w)) = fs_readFile w \<and>
   now (snd (RegExp_exec r s w)) = now w"
  by (simp add: RegExp_exec_def split: option.splits prod.splits)

lemma findRule_frame:
  "fs_stat (snd (findRule rs input w)) = fs_stat w \<and>
   fs_readFile (snd (findRule rs input w)) = fs_readFile w \<and>
   now (snd (findRule rs input w)) = now w"
proof (induction rs arbitrary: w)
  case Nil
  show ?case by simp
next
  case (Cons r rs)
  obtain m w' where e: "RegExp_exec (r_pattern r) input w = (m, w')"
    by (cases "RegExp_exec (r_pattern r) input w")
  have f: "fs_stat w' = fs_stat w \<and> fs_readFile w' = fs_readFile w \<and> now w' = now w"
    using RegExp_exec_frame [of "r_pattern r" input w] e by simp
  show ?case
  proof (cases m)
    case None
    then show ?thesis using e f Cons.IH [of w'] by (simp add: RegExp_test_def)
  next
    case (Some a)
    then show ?thesis using e f by (simp add: RegExp_test_def)
  qed
qed

section \<open>One call of exec, its dependencies resolved\<close>

lemma exec_resolved:
  assumes "findRule ruleSet input w = (Some r, w1)"
    and "evalDependencies r input w1 = (Some (Inr rawDeps), w2)"
    and "forEachDependency
           (\<lambda>dependency. exec depth u ruleSet (nd_value dependency) (nonEmpty (nd_name dependency)))
           rawDeps w2 = Some (Inr entries, w3)"
  shows "exec (Suc depth) u ruleSet input nm w =
           (case r_action r of
              None \<Rightarrow> Some (Inl (Error ''default actions not yet supported''), w3)
            | Some act \<Rightarrow>
                (case awaitMTime (SimpleContext w3 input nm entries) of
                   Inl err \<Rightarrow> Some (Inl err, w3)
                 | Inr depMTime \<Rightarrow>
                     if (case mtimeSafe w input of None \<Rightarrow> False | Some t \<Rightarrow> entries = [] \<or> t > depMTime)
                     then Some (Inr (SimpleFileEntry u w3 (orElse nm input) input None (mtimeSafe w input)), w3)
                     else
                       (case act (SimpleContext w3 input nm entries) w3 of
                          (Inl err, w4) \<Rightarrow> Some (Inl err, w4)
                        | (Inr actionResult, w4) \<Rightarrow>
                            Some (Inr (toEntry u (orElse nm input) actionResult), w4))))"
proof -
  have "fs_stat w1 = fs_stat w"
    using findRule_frame [of ruleSet input w] assms(1) by simp
  then have m: "mtimeSafe w1 input = mtimeSafe w input"
    by (simp add: mtimeSafe_def)
  show ?thesis
    unfolding m [symmetric] using assms by (cases "r_action r") (simp_all add: Let_def)
qed

section \<open>Runs of the examples\<close>

lemma find_min:
  "findRule [min_rule act ds] ''app.min.js'' (disk t) = (Some (min_rule act ds), disk t)"
  by (simp add: RegExp_test_def RegExp_exec_def min_rule_def min_js_def)

lemma find_none: "findRule [min_rule act ds] ''app.js'' (disk t) = (None, disk t)"
  by (simp add: RegExp_test_def RegExp_exec_def min_rule_def min_js_def)

lemma deps_min:
  "evalDependencies (min_rule act ds) ''app.min.js'' (disk t) =
     (Some (Inr [\<lparr>nd_name = None, nd_value = ''app.js''\<rparr>]), disk t)"
  by (simp add: evalDependencies_def RegExp_exec_def min_rule_def min_js_def groupText_def
      first_group_js_def)

lemma exec_app_js:
  "exec (Suc 0) ascii [min_rule act ds] ''app.js'' None (disk t) =
     Some (Inr (file_entry t ''app.js'' t), disk t)"
proof -
  have s: "fs_stat (disk t) ''app.js'' = Inr t"
    by (simp add: disk_def)
  show ?thesis
    by (simp add: find_none mtimeSafe_def s orElse_def file_entry_def del: findRule.simps)
qed

lemma resolve_app_js:
  "forEachDependency
     (\<lambda>dependency. exec (Suc 0) ascii [min_rule act ds] (nd_value dependency)
                      (nonEmpty (nd_name dependency)))
     [\<lparr>nd_name = None, nd_value = ''app.js''\<rparr>] (disk t) =
   Some (Inr [\<lparr>ne_name = None, ne_entry = file_entry t ''app.js'' t\<rparr>], disk t)"
  by (simp add: exec_app_js nonEmpty_def del: exec.simps)

lemma mtime_app_js:
  "awaitMTime (SimpleContext (disk t) ''app.min.js'' None
     [\<lparr>ne_name = None, ne_entry = file_entry t ''app.js'' t\<rparr>]) = Inr t"
  by (simp add: awaitMTime_def SimpleContext_def bindEntry_def getProperty_def composeMTime_def
      getMTime_def file_entry_def SimpleFileEntry_def sortDescending_def Let_def)

lemma mtime_file_entry: "e_mtime (file_entry t p m) = Some (Inr m)"
  by (simp add: file_entry_def SimpleFileEntry_def Let_def)

lemma stat_app_min_js: "fs_stat (disk t) ''app.min.js'' = Inr 20"
  by (simp add: disk_def)

lemma find_site_bundle:
  "findRule site ''bundle.js'' (disk t) = (Some (bundle_rule (Some minified)), disk t)"
  by (simp add: site_def RegExp_test_def RegExp_exec_def bundle_rule_def bundle_js_def)

lemma find_site_min:
  "findRule site ''app.min.js'' (disk t) = (Some (min_rule (Some write_fails) []), disk t)"
  by (simp add: site_def RegExp_test_def RegExp_exec_def bundle_rule_def bundle_js_def
      min_rule_def min_js_def)

lemma find_site_none: "findRule site ''app.js'' (disk t) = (None, disk t)"
  by (simp add: site_def RegExp_test_def RegExp_exec_def bundle_rule_def bundle_js_def
      min_rule_def min_js_def)

lemma deps_bundle:
  "evalDependencies (bundle_rule act) ''bundle.js'' (disk t) =
     (Some (Inr [\<lparr>nd_name = None, nd_value = ''app.js''\<rparr>,
                 \<lparr>nd_name = None, nd_value = ''app.min.js''\<rparr>]), disk t)"
  by (simp add: evalDependencies_def RegExp_exec_def bundle_rule_def bundle_js_def
      both_sources_def)

lemma exec_site_app_js:
  "exec (Suc depth) ascii site ''app.js'' None (disk t) =
     Some (Inr (file_entry t ''app.js'' t), disk t)"
proof -
  have s: "fs_stat (disk t) ''app.js'' = Inr t"
    by (simp add: disk_def)
  show ?thesis
    by (simp add: find_site_none mtimeSafe_def s orElse_def file_entry_def del: findRule.simps)
qed

lemma resolve_site_app_js:
  "forEachDependency
     (\<lambda>dependency. exec (Suc 0) ascii site (nd_value dependency) (nonEmpty (nd_name dependency)))
     [\<lparr>nd_name = None, nd_value = ''app.js''\<rparr>] (disk t) =
   Some (Inr [\<lparr>ne_name = None, ne_entry = file_entry t ''app.js'' t\<rparr>], disk t)"
  by (simp add: exec_site_app_js nonEmpty_def del: exec.simps)

section \<open>Sorting and composing modification times\<close>

lemma hd_insertSorted: "hd (insertSorted a bs) = (case bs of [] \<Rightarrow> a | b # _ \<Rightarrow> max a b)"
  by (cases bs) auto

lemma set_insertSorted: "set (insertSorted a bs) = insert a (set bs)"
  by (induction bs) auto

lemma set_sortDescending: "set (sortDescending xs) = set xs"
  by (induction xs) (simp_all add: sortDescending_def set_insertSorted)

lemma hd_sortDescending: "xs \<noteq> [] \<Longrightarrow> hd (sortDescending xs) = Max (set xs)"
proof (induction xs)
  case Nil
  then show ?case by simp
next
  case (Cons x xs)
  show ?case
  proof (cases "xs = []")
    case True
    then show ?thesis by (simp add: sortDescending_def)
  next
    case False
    then have ne: "sortDescending xs \<noteq> []"
      using set_sortDescending [of xs] by (metis set_empty)
    have "hd (sortDescending (x # xs)) = hd (insertSorted x (sortDescending xs))"
      by (simp add: sortDescending_def)
    also have "\<dots> = max x (hd (sortDescending xs))"
      using ne by (simp add: hd_insertSorted split: list.splits)
    also have "\<dots> = max x (Max (set xs))"
      using Cons.IH False by simp
    also have "\<dots> = Max (set (x # xs))"
      using False by simp
    finally show ?thesis .
  qed
qed

lemma Promise_all_resolved:
  "list_all (\<lambda>x. f x = Inr (g x)) xs \<Longrightarrow> Promise_all (map f xs) = Inr (map g xs)"
  by (induction xs) simp_all

lemma foldl_bindEntry_own:
  "k \<noteq> [] \<Longrightarrow> k \<noteq> ''__proto__'' \<Longrightarrow>
   c_own (foldl bindEntry this entries) k =
     (if filter (\<lambda>item. ne_name item = Some k) entries = [] then c_own this k
      else Some (JEntry (ne_entry (last (filter (\<lambda>item. ne_name item = Some k) entries)))))"
proof (induction entries rule: rev_induct)
  case Nil
  show ?case by simp
next
  case (snoc x xs)
  show ?case
  proof (cases "ne_name x = Some k")
    case True
    then show ?thesis using snoc.prems by (simp add: bindEntry_def)
  next
    case False
    then show ?thesis using snoc by (auto simp add: bindEntry_def split: option.splits)
  qed
qed

lemma foldl_bindEntry_unbound:
  "k = [] \<or> k = ''__proto__'' \<Longrightarrow> c_own (foldl bindEntry this entries) k = c_own this k"
proof (induction entries rule: rev_induct)
  case Nil
  show ?case by simp
next
  case (snoc x xs)
  then show ?case by (auto simp add: bindEntry_def split: option.splits)
qed

lemma foldl_bindEntry_proto:
  "c_proto (foldl bindEntry this entries) =
     (if filter (\<lambda>item. ne_name item = Some ''__proto__'') entries = [] then c_proto this
      else Some (ne_entry (last (filter (\<lambda>item. ne_name item = Some ''__proto__'') entries))))"
proof (induction entries rule: rev_induct)
  case Nil
  show ?case by simp
next
  case (snoc x xs)
  then show ?case by (auto simp add: bindEntry_def split: option.splits)
qed

text \<open>
  The loop over the dependencies, one dependency at a time: when each dependency of \<open>pre\<close>
  resolves to its entry of \<open>es\<close>, from the world the one before it left to its world of
  \<open>ws\<close>, the loop goes on with the rest in the last of these worlds, and puts the entries
  of \<open>pre\<close>, under their names, before those of the rest.
\<close>

lemma forEachDependency_prefix:
  "length es = length pre \<Longrightarrow> length ws = length pre \<Longrightarrow>
   (\<forall>i<length pre. ex (pre ! i) ((w0 # ws) ! i) = Some (Inr (es ! i), ws ! i)) \<Longrightarrow>
   forEachDependency ex (pre @ rest) w0 =
     (case forEachDependency ex rest (last (w0 # ws)) of
        None \<Rightarrow> None
      | Some (Inl err, w') \<Rightarrow> Some (Inl err, w')
      | Some (Inr entries, w') \<Rightarrow>
          Some (Inr (map (\<lambda>(d, e). \<lparr>ne_name = nd_name d, ne_entry = e\<rparr>) (zip pre es) @ entries), w'))"
proof (induction pre arbitrary: es ws w0)
  case Nil
  then show ?case by (simp split: option.splits prod.splits sum.splits)
next
  case (Cons p pre)
  obtain e es' where es: "es = e # es'"
    using Cons.prems(1) by (cases es) simp_all
  obtain w1 ws' where ws: "ws = w1 # ws'"
    using Cons.prems(2) by (cases ws) simp_all
  have step: "ex p w0 = Some (Inr e, w1)"
    using Cons.prems(3) es ws by auto
  have tail: "\<forall>i<length pre. ex (pre ! i) ((w1 # ws') ! i) = Some (Inr (es' ! i), ws' ! i)"
  proof (intro allI impI)
    fix i assume "i < length pre"
    then have "ex ((p # pre) ! Suc i) ((w0 # ws) ! Suc i) = Some (Inr (es ! Suc i), ws ! Suc i)"
      using Cons.prems(3) by (metis Suc_less_eq length_Cons)
    then show "ex (pre ! i) ((w1 # ws') ! i) = Some (Inr (es' ! i), ws' ! i)"
      using es ws by simp
  qed
  have len: "length es' = length pre" "length ws' = length pre"
    using Cons.prems(1,2) es ws by simp_all
  have ih: "forEachDependency ex (pre @ rest) w1 =
     (case forEachDependency ex rest (last (w1 # ws')) of
        None \<Rightarrow> None
      | Some (Inl err, w') \<Rightarrow> Some (Inl err, w')
      | Some (Inr entries, w') \<Rightarrow>
          Some (Inr (map (\<lambda>(d, e). \<lparr>ne_name = nd_name d, ne_entry = e\<rparr>) (zip pre es') @ entries), w'))"
    using Cons.IH [OF len tail] .
  show ?case
    using step ih es ws by (simp split: option.splits prod.splits sum.splits)
qed

section \<open>Patterns without state\<close>

lemma RegExp_exec_stateless:
  "\<not> re_global p \<Longrightarrow> \<not> re_sticky p \<Longrightarrow>
   RegExp_exec p s w = (map_option fst (re_matcher p s 0), w)"
  by (simp add: RegExp_exec_def split: option.splits prod.splits)

lemma findRule_selected:
  "findRule rs input w = (Some r, w1) \<Longrightarrow> \<exists>w0. fst (RegExp_test (r_pattern r) input w0)"
proof (induction rs arbitrary: w)
  case Nil
  then show ?case by simp
next
  case (Cons x xs)
  obtain b w' where t: "RegExp_test (r_pattern x) input w = (b, w')"
    by (cases "RegExp_test (r_pattern x) input w")
  show ?case
  proof (cases b)
    case True
    then have "r = x" using Cons.prems t by simp
    then show ?thesis using t True by (metis fst_conv)
  next
    case False
    then have "findRule xs input w' = (Some r, w1)" using Cons.prems t by simp
    then show ?thesis by (rule Cons.IH)
  qed
qed

section \<open>Targets without a rule\<close>

text \<open>
  C4. When no rule matches the target, \<open>exec\<close> returns: if the stat of the target gives a
  modification time, a file entry whose contents are what reading the file gives (the
  file's bytes) and whose mtime is that time; if the stat fails, the error
  \<^verbatim>\<open>no matching rule for <target>\<close>.
\<close>

theorem exec_without_rule:
  assumes "fst (findRule ruleSet input w) = None"
  shows "exec (Suc depth) u ruleSet input nm w =
           Some (case fs_stat w input of
                   Inr t \<Rightarrow>
                     Inr \<lparr>e_name = orElse nm input,
                          e_contents = fs_readFile w input,
                          e_contentsAsString = map_sum id (Buffer_toString u) (fs_readFile w input),
                          e_path = Some input,
                          e_originalPath = Some input,
                          e_mtime = Some (Inr t)\<rparr>
                 | Inl err \<Rightarrow> Inl (Error (''no matching rule for '' @ input)),
                 snd (findRule ruleSet input w))"
proof -
  obtain w1 where f: "findRule ruleSet input w = (None, w1)"
    using assms by (cases "findRule ruleSet input w") simp
  have fr: "fs_stat w1 = fs_stat w" "fs_readFile w1 = fs_readFile w"
    using findRule_frame [of ruleSet input w] f by simp_all
  show ?thesis
    by (simp add: f fr mtimeSafe_def SimpleFileEntry_def readFile_def split: sum.splits)
qed

theorem exec_without_rule_witness:
  "exec (Suc 0) ascii [min_rule (Some minified) []] ''app.js'' None (disk 10) =
     Some (Inr \<lparr>e_name = ''app.js'',
                e_contents = Inr [0x61, 0x3B],
                e_contentsAsString = Inr (Buffer_toString ascii [0x61, 0x3B]),
                e_path = Some ''app.js'',
                e_originalPath = Some ''app.js'',
                e_mtime = Some (Inr 10)\<rparr>, disk 10) \<and>
   exec (Suc 0) ascii [] ''lib.js'' None (disk 10) =
     Some (Inl (Error ''no matching rule for lib.js''), disk 10)"
proof -
  have h1: "fst (findRule [min_rule (Some minified) []] ''app.js'' (disk 10)) = None"
    by (simp add: find_none del: findRule.simps)
  have h2: "fst (findRule [] ''lib.js'' (disk 10)) = None"
    by simp
  have a: "fs_stat (disk 10) ''app.js'' = Inr 10"
    "fs_readFile (disk 10) ''app.js'' = Inr [0x61, 0x3B]"
    "fs_stat (disk 10) ''lib.js'' = Inl (SystemError ''ENOENT'')"
    by (simp_all add: disk_def)
  show ?thesis
    using exec_without_rule [OF h1, of 0 ascii None] exec_without_rule [OF h2, of 0 ascii None]
    by (simp add: a find_none orElse_def del: exec.simps findRule.simps(2))
qed

section \<open>The staleness decision\<close>

text \<open>
  C3. Take a call whose matched rule has an action, whose dependencies all resolved and
  whose composed dependency mtime is \<open>D\<close>. If the stat of the target fails (no file exists)
  the action runs. If it gives the mtime \<open>T\<close>, the action runs when there are dependencies
  and \<open>T \<le> D\<close>, equal times included; otherwise (no dependencies, or \<open>T > D\<close>) the action
  is skipped and the result is the file entry of the target carrying \<open>T\<close>. Running the
  action means: the result is what the action returns on the context, turned into an entry,
  in the world the action leaves.
\<close>

theorem exec_staleness:
  assumes "findRule ruleSet input w = (Some r, w1)"
    and "evalDependencies r input w1 = (Some (Inr rawDeps), w2)"
    and "forEachDependency
           (\<lambda>dependency. exec depth u ruleSet (nd_value dependency) (nonEmpty (nd_name dependency)))
           rawDeps w2 = Some (Inr entries, w3)"
    and "r_action r = Some act"
    and "awaitMTime (SimpleContext w3 input nm entries) = Inr D"
  shows "exec (Suc depth) u ruleSet input nm w =
           (let run = (case act (SimpleContext w3 input nm entries) w3 of
                         (Inl err, w4) \<Rightarrow> Some (Inl err, w4)
                       | (Inr actionResult, w4) \<Rightarrow>
                           Some (Inr (toEntry u (orElse nm input) actionResult), w4))
            in case fs_stat w input of
                 Inl err \<Rightarrow> run
               | Inr T \<Rightarrow>
                   if entries \<noteq> [] \<and> T \<le> D then run
                   else Some (Inr \<lparr>e_name = orElse nm input,
                                   e_contents = fs_readFile w3 input,
                                   e_contentsAsString =
                                     map_sum id (Buffer_toString u) (fs_readFile w3 input),
                                   e_path = Some input,
                                   e_originalPath = Some input,
                                   e_mtime = Some (Inr T)\<rparr>, w3))"
proof (cases "fs_stat w input")
  case (Inl err)
  then show ?thesis
    using assms(4,5)
    by (simp add: exec_resolved [OF assms(1-3)] mtimeSafe_def del: exec.simps
        split: prod.splits sum.splits)
next
  case (Inr T)
  then show ?thesis
    using assms(4,5)
    by (auto simp add: exec_resolved [OF assms(1-3)] mtimeSafe_def SimpleFileEntry_def readFile_def
        simp del: exec.simps split: prod.splits sum.splits)
qed

theorem exec_staleness_witness:
  "exec (Suc (Suc 0)) ascii [min_rule (Some minified) []] ''app.min.js'' None (disk 10) =
     Some (Inr \<lparr>e_name = ''app.min.js'',
                e_contents = Inr [0x61],
                e_contentsAsString = Inr (Buffer_toString ascii [0x61]),
                e_path = Some ''app.min.js'',
                e_originalPath = Some ''app.min.js'',
                e_mtime = Some (Inr 20)\<rparr>, disk 10) \<and>
   exec (Suc (Suc 0)) ascii [min_rule (Some minified) []] ''app.min.js'' None (disk 20) =
     Some (Inr (toEntry ascii ''app.min.js'' (ResultString ''min'')), disk 20)"
proof -
  have act: "r_action (min_rule (Some minified) []) = Some minified"
    by (simp add: min_rule_def)
  have a: "fs_readFile (disk 10) ''app.min.js'' = Inr [0x61]"
    by (simp add: disk_def)
  show ?thesis
    using exec_staleness [OF find_min [of _ _ 10] deps_min resolve_app_js act mtime_app_js]
      exec_staleness [OF find_min [of _ _ 20] deps_min resolve_app_js act mtime_app_js]
    by (simp add: a stat_app_min_js orElse_def minified_def del: exec.simps)
qed

section \<open>Rules without an action\<close>

text \<open>
  C2, as the code has it. When the matched rule has no action and its dependencies all
  resolved, \<open>exec\<close> fails with the error \<^verbatim>\<open>default actions not yet supported\<close>, which
  does not name the target. The check comes before the staleness decision, so the error
  is raised for an up-to-date target as well as for a stale one.
\<close>

theorem exec_null_action:
  assumes "findRule ruleSet input w = (Some r, w1)"
    and "evalDependencies r input w1 = (Some (Inr rawDeps), w2)"
    and "forEachDependency
           (\<lambda>dependency. exec depth u ruleSet (nd_value dependency) (nonEmpty (nd_name dependency)))
           rawDeps w2 = Some (Inr entries, w3)"
    and "r_action r = None"
  shows "exec (Suc depth) u ruleSet input nm w =
           Some (Inl (Error ''default actions not yet supported''), w3)"
  using assms(4) by (simp add: exec_resolved [OF assms(1-3)] del: exec.simps)

theorem exec_null_action_witness:
  "exec (Suc (Suc 0)) ascii [min_rule None []] ''app.min.js'' None (disk 20) =
     Some (Inl (Error ''default actions not yet supported''), disk 20)"
proof -
  have act: "r_action (min_rule None []) = None"
    by (simp add: min_rule_def)
  show ?thesis
    using exec_null_action [OF find_min [of _ _ 20] deps_min resolve_app_js act]
    by (simp del: exec.simps)
qed

text \<open>
  The claim as stated fails on an up-to-date target: \<^verbatim>\<open>app.min.js\<close> exists, was
  modified at 20, and its one dependency at 10; the rule has no action, and \<open>exec\<close>
  raises the error instead of returning the file.
\<close>

theorem exec_null_action_counterexample:
  "fs_stat (disk 10) ''app.min.js'' = Inr 20 \<and>
   awaitMTime (SimpleContext (disk 10) ''app.min.js'' None
     [\<lparr>ne_name = None, ne_entry = file_entry 10 ''app.js'' 10\<rparr>]) = Inr 10 \<and>
   exec (Suc (Suc 0)) ascii [min_rule None []] ''app.min.js'' None (disk 10) =
     Some (Inl (Error ''default actions not yet supported''), disk 10)"
proof -
  have act: "r_action (min_rule None []) = None"
    by (simp add: min_rule_def)
  have "exec (Suc (Suc 0)) ascii [min_rule None []] ''app.min.js'' None (disk 10) =
          Some (Inl (Error ''default actions not yet supported''), disk 10)"
    by (simp add: exec_resolved [OF find_min [of _ _ 10] deps_min resolve_app_js] act del: exec.simps)
  then show ?thesis
    by (simp add: stat_app_min_js mtime_app_js del: exec.simps)
qed

section \<open>Matching twice\<close>

text \<open>
  \<open>exec\<close> selects the rule with \<^verbatim>\<open>pattern.test\<close> and \<open>evalDependencies\<close> then runs
  \<^verbatim>\<open>pattern.exec\<close> on the same target: the pattern is executed twice. For a pattern
  with neither the global nor the sticky flag the second execution finds the match that
  starts the search at 0, and leaves the world as it is.
\<close>

lemma rematch_stateless:
  assumes "findRule ruleSet input w = (Some r, w1)"
    and "\<not> re_global (r_pattern r)"
    and "\<not> re_sticky (r_pattern r)"
  shows "\<exists>m e. re_matcher (r_pattern r) input 0 = Some (m, e) \<and>
               evalDependencies r input w1 = (Some (create (r_dependencies r) input m), w1)"
proof -
  obtain w0 where "fst (RegExp_test (r_pattern r) input w0)"
    using findRule_selected [OF assms(1)] by blast
  then have "re_matcher (r_pattern r) input 0 \<noteq> None"
    by (simp add: RegExp_test_def RegExp_exec_stateless [OF assms(2,3)])
  then obtain m e where "re_matcher (r_pattern r) input 0 = Some (m, e)"
    by (cases "re_matcher (r_pattern r) input 0") auto
  then show ?thesis
    by (simp add: evalDependencies_def RegExp_exec_stateless [OF assms(2,3)])
qed

text \<open>
  C7. The spec has applicability and the dependency set come from one execution of the
  pattern, so that a selected rule never fails to give its dependencies. With the pattern
  \<^verbatim>\<open>/a/g\<close> and the target \<^verbatim>\<open>a\<close> the rule gives its dependencies when asked first,
  and the test of \<open>exec\<close> selects it; but the test moves \<^verbatim>\<open>lastIndex\<close> to 1, the second
  execution starts there and finds nothing, and \<open>exec\<close> fails with its own
  \<^verbatim>\<open>invalid matching rule\<close>.
\<close>

theorem selected_rule_rejected:
  "fst (evalDependencies (a_rule (Some minified)) ''a'' (disk 10)) = Some (Inr []) \<and>
   fst (findRule [a_rule (Some minified)] ''a'' (disk 10)) = Some (a_rule (Some minified)) \<and>
   map_option fst (exec (Suc 0) ascii [a_rule (Some minified)] ''a'' None (disk 10)) =
     Some (Inl (Error ''invalid matching rule for a''))"
  by (simp add: RegExp_test_def RegExp_exec_def evalDependencies_def a_rule_def every_a_def
      no_dependency_def disk_def Let_def)

section \<open>Failures of the collaborators\<close>

text \<open>
  C8, as the code has it. Take a call whose rule was selected and gave its dependencies.
  When the dependencies before \<open>d\<close> resolve, each in the world the one before it left,
  and resolving \<open>d\<close> fails, then \<open>exec\<close> fails with the error of \<open>d\<close>, in the world that
  failure left: the later dependencies are not resolved and nothing is tried again. When
  all dependencies resolve and the action runs and fails, \<open>exec\<close> fails with the error of
  the action, in the world the action left. Reads and writes of the collaborators are
  awaited in these two places. The stat of the target is the exception, shown after the
  theorem: its failure is read as "no file".
\<close>

theorem failures_propagate:
  assumes "findRule ruleSet input w = (Some r, w1)"
    and "evalDependencies r input w1 = (Some (Inr rawDeps), w2)"
  shows "(rawDeps = pre @ d # post \<and> length es = length pre \<and> length ws = length pre \<and>
          (\<forall>i<length pre.
             exec depth u ruleSet (nd_value (pre ! i)) (nonEmpty (nd_name (pre ! i))) ((w2 # ws) ! i) =
               Some (Inr (es ! i), ws ! i)) \<and>
          exec depth u ruleSet (nd_value d) (nonEmpty (nd_name d)) (last (w2 # ws)) =
            Some (Inl err, w3)
          \<longrightarrow> exec (Suc depth) u ruleSet input nm w = Some (Inl err, w3)) \<and>
         (forEachDependency
            (\<lambda>dependency. exec depth u ruleSet (nd_value dependency) (nonEmpty (nd_name dependency)))
            rawDeps w2 = Some (Inr entries, w3) \<and>
          r_action r = Some act \<and>
          awaitMTime (SimpleContext w3 input nm entries) = Inr D \<and>
          (case fs_stat w input of Inl e \<Rightarrow> True | Inr T \<Rightarrow> entries \<noteq> [] \<and> T \<le> D) \<and>
          act (SimpleContext w3 input nm entries) w3 = (Inl err, w4)
          \<longrightarrow> exec (Suc depth) u ruleSet input nm w = Some (Inl err, w4))"
proof (intro conjI impI)
  let ?ex = "\<lambda>dependency. exec depth u ruleSet (nd_value dependency) (nonEmpty (nd_name dependency))"
  assume a: "rawDeps = pre @ d # post \<and> length es = length pre \<and> length ws = length pre \<and>
          (\<forall>i<length pre.
             exec depth u ruleSet (nd_value (pre ! i)) (nonEmpty (nd_name (pre ! i))) ((w2 # ws) ! i) =
               Some (Inr (es ! i), ws ! i)) \<and>
          exec depth u ruleSet (nd_value d) (nonEmpty (nd_name d)) (last (w2 # ws)) =
            Some (Inl err, w3)"
  then have len: "length es = length pre" "length ws = length pre"
    by simp_all
  have pre: "\<forall>i<length pre. ?ex (pre ! i) ((w2 # ws) ! i) = Some (Inr (es ! i), ws ! i)"
    using a by simp
  have "forEachDependency ?ex (d # post) (last (w2 # ws)) = Some (Inl err, w3)"
    using a by simp
  then have "forEachDependency ?ex (pre @ d # post) w2 = Some (Inl err, w3)"
    using forEachDependency_prefix [OF len pre, of "d # post"] by simp
  then have "forEachDependency ?ex rawDeps w2 = Some (Inl err, w3)"
    using a by simp
  then show "exec (Suc depth) u ruleSet input nm w = Some (Inl err, w3)"
    using assms by simp
next
  assume a: "forEachDependency
            (\<lambda>dependency. exec depth u ruleSet (nd_value dependency) (nonEmpty (nd_name dependency)))
            rawDeps w2 = Some (Inr entries, w3) \<and>
          r_action r = Some act \<and>
          awaitMTime (SimpleContext w3 input nm entries) = Inr D \<and>
          (case fs_stat w input of Inl e \<Rightarrow> True | Inr T \<Rightarrow> entries \<noteq> [] \<and> T \<le> D) \<and>
          act (SimpleContext w3 input nm entries) w3 = (Inl err, w4)"
  then have res: "forEachDependency
            (\<lambda>dependency. exec depth u ruleSet (nd_value dependency) (nonEmpty (nd_name dependency)))
            rawDeps w2 = Some (Inr entries, w3)"
    by simp
  show "exec (Suc depth) u ruleSet input nm w = Some (Inl err, w4)"
    using a
    by (auto simp add: exec_resolved [OF assms res] mtimeSafe_def simp del: exec.simps
        split: sum.splits)
qed

text \<open>
  The witness: the write of the action of \<^verbatim>\<open>app.min.js\<close> fails, which fails that
  target; it is the second dependency of \<^verbatim>\<open>bundle.js\<close>, after one that resolves, and
  fails that target with the same error.
\<close>

theorem failures_propagate_witness:
  "exec (Suc (Suc 0)) ascii site ''app.min.js'' None (disk 20) =
     Some (Inl (SystemError ''EACCES''), disk 20) \<and>
   exec (Suc (Suc (Suc 0))) ascii site ''bundle.js'' None (disk 20) =
     Some (Inl (SystemError ''EACCES''), disk 20)"
proof -
  have act: "r_action (min_rule (Some write_fails) []) = Some write_fails"
    by (simp add: min_rule_def)
  have run: "write_fails (SimpleContext (disk 20) ''app.min.js'' None
               [\<lparr>ne_name = None, ne_entry = file_entry 20 ''app.js'' 20\<rparr>]) (disk 20) =
             (Inl (SystemError ''EACCES''), disk 20)"
    by (simp add: write_fails_def)
  have stale: "(case fs_stat (disk 20) ''app.min.js'' of
                  Inl e \<Rightarrow> True
                | Inr T \<Rightarrow> [\<lparr>ne_name = None, ne_entry = file_entry 20 ''app.js'' 20\<rparr>] \<noteq> [] \<and> T \<le> 20)"
    by (simp add: stat_app_min_js)
  have child: "exec (Suc (Suc 0)) ascii site ''app.min.js'' None (disk 20) =
     Some (Inl (SystemError ''EACCES''), disk 20)"
    using failures_propagate [where depth = "Suc 0" and u = ascii and nm = None
          and entries = "[\<lparr>ne_name = None, ne_entry = file_entry 20 ''app.js'' 20\<rparr>]"
          and ?w3.0 = "disk 20" and act = write_fails and D = 20
          and err = "SystemError ''EACCES''" and ?w4.0 = "disk 20",
        OF find_site_min [of 20] deps_min]
      resolve_site_app_js [of 20] mtime_app_js [of 20] act run stale
    by (simp del: exec.simps)
  have first: "exec (Suc (Suc 0)) ascii site ''app.js'' None (disk 20) =
     Some (Inr (file_entry 20 ''app.js'' 20), disk 20)"
    by (rule exec_site_app_js)
  have parent: "exec (Suc (Suc (Suc 0))) ascii site ''bundle.js'' None (disk 20) =
     Some (Inl (SystemError ''EACCES''), disk 20)"
    using failures_propagate [where depth = "Suc (Suc 0)" and u = ascii and nm = None
          and pre = "[\<lparr>nd_name = None, nd_value = ''app.js''\<rparr>]"
          and d = "\<lparr>nd_name = None, nd_value = ''app.min.js''\<rparr>" and post = "[]"
          and es = "[file_entry 20 ''app.js'' 20]" and ws = "[disk 20]"
          and err = "SystemError ''EACCES''" and ?w3.0 = "disk 20",
        OF find_site_bundle [of 20] deps_bundle]
      child first
    by (simp add: nonEmpty_def del: exec.simps)
  show ?thesis
    using child parent by (simp del: exec.simps)
qed

text \<open>
  The claim as stated fails for the stat of the target: the file system refuses access to
  \<^verbatim>\<open>secret.js\<close>, and \<open>exec\<close> reports that no rule matches.
\<close>

theorem failures_propagate_counterexample:
  "fs_stat (disk 10) ''secret.js'' = Inl (SystemError ''EACCES'') \<and>
   exec (Suc 0) ascii [] ''secret.js'' None (disk 10) =
     Some (Inl (Error ''no matching rule for secret.js''), disk 10)"
  by (simp add: mtimeSafe_def disk_def)

section \<open>The context handed to the action\<close>

text \<open>
  C9, as the code has it. When no dependency is named \<^verbatim>\<open>entries\<close> and no entry's
  mtime promise is rejected, the freshness timestamp of the context built from the entries
  is the current time when there are no entries, and otherwise the maximum over the entries
  of: the entry's mtime where it has one, the current time where it has none.
\<close>

theorem context_mtime:
  assumes "list_all (\<lambda>item. ne_name item \<noteq> Some ''entries'') entries"
    and "list_all (\<lambda>item. \<forall>err. e_mtime (ne_entry item) \<noteq> Some (Inl err)) entries"
  shows "awaitMTime (SimpleContext w input nm entries) =
           Inr (if entries = [] then now w
                else Max ((\<lambda>item. case e_mtime (ne_entry item) of Some (Inr t) \<Rightarrow> t | _ \<Rightarrow> now w)
                            ` set entries))"
proof -
  let ?f = "\<lambda>e. case getMTime e of None \<Rightarrow> Inr (now w) | Some p \<Rightarrow> p"
  let ?g = "\<lambda>e. case e_mtime e of Some (Inr t) \<Rightarrow> t | _ \<Rightarrow> now w"
  have none: "filter (\<lambda>item. ne_name item = Some ''entries'') entries = []"
    using assms(1) by (induction entries) simp_all
  have ent: "c_own
               (foldl bindEntry
                  \<lparr>c_own = [''input'' \<mapsto> JString input,
                            ''name'' \<mapsto> (case nm of None \<Rightarrow> JUndefined | Some s \<Rightarrow> JString s),
                            ''entries'' \<mapsto> JEntries (map ne_entry entries)],
                   c_proto = None\<rparr> entries) ''entries''
             = Some (JEntries (map ne_entry entries))"
    by (simp add: foldl_bindEntry_own none)
  have aw: "awaitMTime (SimpleContext w input nm entries) = composeMTime w (map ne_entry entries)"
    by (simp add: awaitMTime_def SimpleContext_def Let_def ent getProperty_def)
  have "list_all (\<lambda>e. ?f e = Inr (?g e)) (map ne_entry entries)"
    using assms(2)
    by (induction entries) (auto simp add: getMTime_def split: option.splits sum.splits)
  then have pa: "Promise_all (map ?f (map ne_entry entries)) = Inr (map ?g (map ne_entry entries))"
    by (rule Promise_all_resolved)
  show ?thesis
  proof (cases "entries = []")
    case True
    then have "composeMTime w (map ne_entry entries) = Inr (now w)"
      by (simp add: composeMTime_def)
    then show ?thesis using aw True by simp
  next
    case False
    have "composeMTime w (map ne_entry entries) =
            Inr (hd (sortDescending (map ?g (map ne_entry entries))))"
      using False pa by (simp add: composeMTime_def)
    also have "\<dots> = Inr (Max (set (map ?g (map ne_entry entries))))"
      using False by (simp add: hd_sortDescending)
    also have "\<dots> = Inr (Max ((\<lambda>item. ?g (ne_entry item)) ` set entries))"
      by (simp add: image_image)
    finally show ?thesis using False aw by simp
  qed
qed

theorem context_mtime_witness:
  "awaitMTime (SimpleContext (disk 10) ''bundle.js'' None
     [\<lparr>ne_name = None, ne_entry = file_entry 10 ''app.js'' 10\<rparr>,
      \<lparr>ne_name = Some ''min'', ne_entry = file_entry 10 ''app.min.js'' 20\<rparr>]) = Inr 20 \<and>
   awaitMTime (SimpleContext (disk 10) ''bundle.js'' None []) = Inr 1000"
proof -
  have h1: "list_all (\<lambda>item. ne_name item \<noteq> Some ''entries'')
              [\<lparr>ne_name = None, ne_entry = file_entry 10 ''app.js'' 10\<rparr>,
               \<lparr>ne_name = Some ''min'', ne_entry = file_entry 10 ''app.min.js'' 20\<rparr>]"
    by simp
  have h2: "list_all (\<lambda>item. \<forall>err. e_mtime (ne_entry item) \<noteq> Some (Inl err))
              [\<lparr>ne_name = None, ne_entry = file_entry 10 ''app.js'' 10\<rparr>,
               \<lparr>ne_name = Some ''min'', ne_entry = file_entry 10 ''app.min.js'' 20\<rparr>]"
    by (simp add: mtime_file_entry)
  have h3: "list_all (\<lambda>item. ne_name item \<noteq> Some ''entries'') []"
    "list_all (\<lambda>item. \<forall>err. e_mtime (ne_entry item) \<noteq> Some (Inl err)) []"
    by simp_all
  have n: "now (disk 10) = 1000"
    by (simp add: disk_def)
  show ?thesis
    using context_mtime [OF h1 h2, of "disk 10" "''bundle.js''" None]
      context_mtime [OF h3, of "disk 10" "''bundle.js''" None]
    by (simp add: n mtime_file_entry)
qed

text \<open>
  The claim as stated fails when an entry has no mtime: of the two entries below only the
  first has one, 10, and the timestamp of the context is the clock's 1000.
\<close>

theorem context_mtime_counterexample:
  "map (\<lambda>item. e_mtime (ne_entry item))
     [\<lparr>ne_name = None, ne_entry = file_entry 10 ''app.js'' 10\<rparr>,
      \<lparr>ne_name = None, ne_entry = built_entry\<rparr>] = [Some (Inr 10), None] \<and>
   awaitMTime (SimpleContext (disk 10) ''bundle.js'' None
     [\<lparr>ne_name = None, ne_entry = file_entry 10 ''app.js'' 10\<rparr>,
      \<lparr>ne_name = None, ne_entry = built_entry\<rparr>]) = Inr 1000"
  by (simp add: awaitMTime_def SimpleContext_def bindEntry_def getProperty_def composeMTime_def
      getMTime_def file_entry_def SimpleFileEntry_def built_entry_def toEntry_def
      sortDescending_def Let_def disk_def)

text \<open>
  C10, as the code has it. The context built from the entries has these own properties and
  this prototype. For a name \<open>k\<close> other than the empty name, \<^verbatim>\<open>mtime\<close> and
  \<^verbatim>\<open>__proto__\<close>: when some dependency carries the role name \<open>k\<close>, the property \<open>k\<close>
  holds the resolved entry of the last such dependency, whatever \<open>k\<close> is, so a dependency
  named \<^verbatim>\<open>entries\<close> replaces the entry list; when none does, the property is the one the
  constructor set (\<^verbatim>\<open>input\<close>, \<^verbatim>\<open>name\<close>, \<^verbatim>\<open>entries\<close>) or absent, so dependencies
  without a name bind nothing. No property has the empty name or the name
  \<^verbatim>\<open>__proto__\<close>: a dependency with the empty name is skipped, and the entry of the last
  dependency named \<^verbatim>\<open>__proto__\<close> becomes the prototype of the context, which inherits
  the entry's properties. The property \<^verbatim>\<open>mtime\<close> holds the composed timestamp: that of
  the entries, or the current time when a dependency named \<^verbatim>\<open>entries\<close> has replaced
  the list.
\<close>

theorem context_bindings:
  "(k \<noteq> [] \<and> k \<noteq> ''mtime'' \<and> k \<noteq> ''__proto__'' \<longrightarrow>
      c_own (SimpleContext w input nm entries) k =
        (if filter (\<lambda>item. ne_name item = Some k) entries = []
         then [''input'' \<mapsto> JString input,
               ''name'' \<mapsto> (case nm of None \<Rightarrow> JUndefined | Some s \<Rightarrow> JString s),
               ''entries'' \<mapsto> JEntries (map ne_entry entries)] k
         else Some (JEntry (ne_entry (last (filter (\<lambda>item. ne_name item = Some k) entries)))))) \<and>
   c_own (SimpleContext w input nm entries) [] = None \<and>
   c_own (SimpleContext w input nm entries) ''__proto__'' = None \<and>
   c_proto (SimpleContext w input nm entries) =
     (if filter (\<lambda>item. ne_name item = Some ''__proto__'') entries = [] then None
      else Some (ne_entry (last (filter (\<lambda>item. ne_name item = Some ''__proto__'') entries)))) \<and>
   c_own (SimpleContext w input nm entries) ''mtime'' =
     Some (JPromise (if filter (\<lambda>item. ne_name item = Some ''entries'') entries = []
                     then composeMTime w (map ne_entry entries)
                     else Inr (now w)))"
proof (intro conjI impI)
  assume "k \<noteq> [] \<and> k \<noteq> ''mtime'' \<and> k \<noteq> ''__proto__''"
  then show "c_own (SimpleContext w input nm entries) k =
        (if filter (\<lambda>item. ne_name item = Some k) entries = []
         then [''input'' \<mapsto> JString input,
               ''name'' \<mapsto> (case nm of None \<Rightarrow> JUndefined | Some s \<Rightarrow> JString s),
               ''entries'' \<mapsto> JEntries (map ne_entry entries)] k
         else Some (JEntry (ne_entry (last (filter (\<lambda>item. ne_name item = Some k) entries)))))"
    by (simp add: SimpleContext_def Let_def foldl_bindEntry_own)
next
  show "c_own (SimpleContext w input nm entries) [] = None"
    by (simp add: SimpleContext_def Let_def foldl_bindEntry_unbound)
next
  show "c_own (SimpleContext w input nm entries) ''__proto__'' = None"
    by (simp add: SimpleContext_def Let_def foldl_bindEntry_unbound)
next
  show "c_proto (SimpleContext w input nm entries) =
     (if filter (\<lambda>item. ne_name item = Some ''__proto__'') entries = [] then None
      else Some (ne_entry (last (filter (\<lambda>item. ne_name item = Some ''__proto__'') entries))))"
    by (simp add: SimpleContext_def Let_def foldl_bindEntry_proto)
next
  show "c_own (SimpleContext w input nm entries) ''mtime'' =
     Some (JPromise (if filter (\<lambda>item. ne_name item = Some ''entries'') entries = []
                     then composeMTime w (map ne_entry entries)
                     else Inr (now w)))"
    by (simp add: SimpleContext_def Let_def getProperty_def foldl_bindEntry_own)
qed

text \<open>
  The witness: four dependencies, named \<^verbatim>\<open>entries\<close>, not at all, \<^verbatim>\<open>src\<close> and
  \<^verbatim>\<open>__proto__\<close>. The action reads the first where it expects the list, and reads as
  \<^verbatim>\<open>context.path\<close> the path of the last.
\<close>

theorem context_bindings_witness:
  "c_own (SimpleContext (disk 10) ''bundle.js'' None
     [\<lparr>ne_name = Some ''entries'', ne_entry = file_entry 10 ''app.js'' 10\<rparr>,
      \<lparr>ne_name = None, ne_entry = built_entry\<rparr>,
      \<lparr>ne_name = Some ''src'', ne_entry = file_entry 10 ''app.min.js'' 20\<rparr>,
      \<lparr>ne_name = Some ''__proto__'', ne_entry = file_entry 10 ''app.js'' 10\<rparr>]) ''entries'' =
     Some (JEntry (file_entry 10 ''app.js'' 10)) \<and>
   c_own (SimpleContext (disk 10) ''bundle.js'' None
     [\<lparr>ne_name = Some ''entries'', ne_entry = file_entry 10 ''app.js'' 10\<rparr>,
      \<lparr>ne_name = None, ne_entry = built_entry\<rparr>,
      \<lparr>ne_name = Some ''src'', ne_entry = file_entry 10 ''app.min.js'' 20\<rparr>,
      \<lparr>ne_name = Some ''__proto__'', ne_entry = file_entry 10 ''app.js'' 10\<rparr>]) ''src'' =
     Some (JEntry (file_entry 10 ''app.min.js'' 20)) \<and>
   c_own (SimpleContext (disk 10) ''bundle.js'' None
     [\<lparr>ne_name = Some ''entries'', ne_entry = file_entry 10 ''app.js'' 10\<rparr>,
      \<lparr>ne_name = None, ne_entry = built_entry\<rparr>,
      \<lparr>ne_name = Some ''src'', ne_entry = file_entry 10 ''app.min.js'' 20\<rparr>,
      \<lparr>ne_name = Some ''__proto__'', ne_entry = file_entry 10 ''app.js'' 10\<rparr>]) ''path'' = None \<and>
   c_proto (SimpleContext (disk 10) ''bundle.js'' None
     [\<lparr>ne_name = Some ''entries'', ne_entry = file_entry 10 ''app.js'' 10\<rparr>,
      \<lparr>ne_name = None, ne_entry = built_entry\<rparr>,
      \<lparr>ne_name = Some ''src'', ne_entry = file_entry 10 ''app.min.js'' 20\<rparr>,
      \<lparr>ne_name = Some ''__proto__'', ne_entry = file_entry 10 ''app.js'' 10\<rparr>]) =
     Some (file_entry 10 ''app.js'' 10) \<and>
   getProperty (SimpleContext (disk 10) ''bundle.js'' None
     [\<lparr>ne_name = Some ''entries'', ne_entry = file_entry 10 ''app.js'' 10\<rparr>,
      \<lparr>ne_name = None, ne_entry = built_entry\<rparr>,
      \<lparr>ne_name = Some ''src'', ne_entry = file_entry 10 ''app.min.js'' 20\<rparr>,
      \<lparr>ne_name = Some ''__proto__'', ne_entry = file_entry 10 ''app.js'' 10\<rparr>]) ''path'' =
     Some (JString ''app.js'')"
proof -
  let ?es = "[\<lparr>ne_name = Some ''entries'', ne_entry = file_entry 10 ''app.js'' 10\<rparr>,
      \<lparr>ne_name = None, ne_entry = built_entry\<rparr>,
      \<lparr>ne_name = Some ''src'', ne_entry = file_entry 10 ''app.min.js'' 20\<rparr>,
      \<lparr>ne_name = Some ''__proto__'', ne_entry = file_entry 10 ''app.js'' 10\<rparr>]"
  have p: "e_path (file_entry 10 ''app.js'' 10) = Some ''app.js''"
    by (simp add: file_entry_def SimpleFileEntry_def Let_def)
  have a: "c_own (SimpleContext (disk 10) ''bundle.js'' None ?es) ''entries'' =
             Some (JEntry (file_entry 10 ''app.js'' 10))"
    using context_bindings [of "''entries''" "disk 10" "''bundle.js''" None ?es] by simp
  have b: "c_own (SimpleContext (disk 10) ''bundle.js'' None ?es) ''src'' =
             Some (JEntry (file_entry 10 ''app.min.js'' 20))"
    using context_bindings [of "''src''" "disk 10" "''bundle.js''" None ?es] by simp
  have c: "c_own (SimpleContext (disk 10) ''bundle.js'' None ?es) ''path'' = None"
    using context_bindings [of "''path''" "disk 10" "''bundle.js''" None ?es] by simp
  have d: "c_proto (SimpleContext (disk 10) ''bundle.js'' None ?es) =
             Some (file_entry 10 ''app.js'' 10)"
    using context_bindings [of "''path''" "disk 10" "''bundle.js''" None ?es] by simp
  have e: "getProperty (SimpleContext (disk 10) ''bundle.js'' None ?es) ''path'' =
             Some (JString ''app.js'')"
    by (simp add: getProperty_def c d entryProperty_def p)
  show ?thesis
    using a b c d e by simp
qed

text \<open>
  The claim as stated fails for three role names that are not null: a dependency named
  \<^verbatim>\<open>mtime\<close> is not what the property \<^verbatim>\<open>mtime\<close> holds (the composed timestamp is
  stored after the bindings), a dependency with the empty name is bound nowhere, and a
  dependency named \<^verbatim>\<open>__proto__\<close> adds no field.
\<close>

theorem context_bindings_counterexample:
  "c_own (SimpleContext (disk 10) ''bundle.js'' None
     [\<lparr>ne_name = Some ''mtime'', ne_entry = file_entry 10 ''app.js'' 10\<rparr>]) ''mtime'' =
     Some (JPromise (Inr 10)) \<and>
   c_own (SimpleContext (disk 10) ''bundle.js'' None
     [\<lparr>ne_name = Some [], ne_entry = file_entry 10 ''app.js'' 10\<rparr>]) [] = None \<and>
   c_own (SimpleContext (disk 10) ''bundle.js'' None
     [\<lparr>ne_name = Some ''__proto__'', ne_entry = file_entry 10 ''app.js'' 10\<rparr>]) ''__proto__'' =
     None"
  by (simp add: SimpleContext_def bindEntry_def getProperty_def composeMTime_def getMTime_def
      file_entry_def SimpleFileEntry_def sortDescending_def Let_def)

section \<open>Decorators\<close>

lemma findRule_decorators:
  "findRule (map (\<lambda>r. r\<lparr>r_decorators := ds r\<rparr>) rs) input w =
     (map_option (\<lambda>r. r\<lparr>r_decorators := ds r\<rparr>) (fst (findRule rs input w)),
      snd (findRule rs input w))"
proof (induction rs arbitrary: w)
  case Nil
  show ?case by simp
next
  case (Cons r rs)
  obtain b w' where t: "RegExp_test (r_pattern r) input w = (b, w')"
    by (cases "RegExp_test (r_pattern r) input w")
  show ?case
    using t Cons.IH [of w'] by (cases b) simp_all
qed

lemma forEachDependency_cong:
  "(\<And>d w. ex d w = ex' d w) \<Longrightarrow> forEachDependency ex ds w = forEachDependency ex' ds w"
  by (induction ds arbitrary: w) (simp_all split: option.splits prod.splits sum.splits)

text \<open>
  \<open>exec\<close> never reads the decorators of a rule: replacing them, in every rule of the set,
  changes no result.
\<close>

lemma exec_ignores_decorators:
  "exec depth u (map (\<lambda>r. r\<lparr>r_decorators := ds r\<rparr>) ruleSet) input nm w =
   exec depth u ruleSet input nm w"
proof (induction depth arbitrary: input nm w)
  case 0
  show ?case by simp
next
  case (Suc depth)
  let ?f = "\<lambda>r. r\<lparr>r_decorators := ds r\<rparr>"
  obtain ro w1 where f: "findRule ruleSet input w = (ro, w1)"
    by (cases "findRule ruleSet input w")
  have f': "findRule (map ?f ruleSet) input w = (map_option ?f ro, w1)"
    using findRule_decorators [of ds ruleSet input w] f by simp
  have fe: "forEachDependency
              (\<lambda>dependency. exec depth u (map ?f ruleSet) (nd_value dependency)
                               (nonEmpty (nd_name dependency))) rawDeps w2 =
            forEachDependency
              (\<lambda>dependency. exec depth u ruleSet (nd_value dependency)
                               (nonEmpty (nd_name dependency))) rawDeps w2" for rawDeps w2
    by (rule forEachDependency_cong) (rule Suc.IH)
  show ?case
  proof (cases ro)
    case None
    then show ?thesis using f f' by simp
  next
    case (Some r)
    have e: "evalDependencies (?f r) input w1 = evalDependencies r input w1"
      by (simp add: evalDependencies_def split: option.splits prod.splits)
    show ?thesis
      using f f' Some
      by (simp add: e fe Let_def cong: prod.case_cong option.case_cong sum.case_cong)
  qed
qed

text \<open>
  C1. The spec has every decorator of the rule applied, in declaration order, to the
  context before the action runs. \<open>exec\<close> does not: the rule below is built with the
  decorator \<open>set_path\<close>, its target is stale, and its action is handed the context without
  a \<^verbatim>\<open>path\<close>.
\<close>

theorem decorators_not_applied:
  "build compile
     (addDecorators [set_path]
        (addDependency (Inr first_group_js) (RuleBuilder_new (Inr min_js) (Some report_path)))) =
     Inr (min_rule (Some report_path) [set_path]) \<and>
   exec (Suc (Suc 0)) ascii [min_rule (Some report_path) [set_path]] ''app.min.js'' None (disk 20) =
     Some (Inr (toEntry ascii ''app.min.js'' (ResultString ''no path'')), disk 20)"
proof -
  have b: "build compile
     (addDecorators [set_path]
        (addDependency (Inr first_group_js) (RuleBuilder_new (Inr min_js) (Some report_path)))) =
     Inr (min_rule (Some report_path) [set_path])"
    by (simp add: build_def addDecorators_def addDependency_def RuleBuilder_new_def Rule_new_def
        neitherNullNorUndefined_def min_rule_def)
  have act: "r_action (min_rule (Some report_path) [set_path]) = Some report_path"
    by (simp add: min_rule_def)
  have run: "report_path (SimpleContext (disk 20) ''app.min.js'' None
               [\<lparr>ne_name = None, ne_entry = file_entry 20 ''app.js'' 20\<rparr>]) (disk 20) =
             (Inr (ResultString ''no path''), disk 20)"
    by (simp add: report_path_def SimpleContext_def bindEntry_def getProperty_def Let_def)
  have "exec (Suc (Suc 0)) ascii [min_rule (Some report_path) [set_path]] ''app.min.js'' None (disk 20) =
     Some (Inr (toEntry ascii ''app.min.js'' (ResultString ''no path'')), disk 20)"
    by (simp add: exec_resolved [OF find_min [of _ _ 20] deps_min resolve_app_js] act run
        mtime_app_js mtimeSafe_def stat_app_min_js orElse_def del: exec.simps)
  then show ?thesis using b by (simp del: exec.simps)
qed

section \<open>Dependency templates\<close>

text \<open>
  C5. The spec has a string template yield the template with every capture-group
  placeholder replaced by the group's text: \<^verbatim>\<open>\1.js\<close> on \<^verbatim>\<open>app.min.js\<close> would be
  \<^verbatim>\<open>app.js\<close>. \<open>addDependency\<close> wraps the string in a function that returns it, so
  the rule yields the template as written; and the adapter's own branch for strings
  searches the template for the target, not for placeholders: it leaves this template as
  written too, and replaces the target's text, where it occurs, by \<^verbatim>\<open>undefined\<close>.
\<close>

theorem template_not_substituted:
  "(case build compile
           (addDependency (Inl (CHR 0x5C # ''1.js'')) (RuleBuilder_new (Inr min_js) (Some minified))) of
      Inl err \<Rightarrow> None
    | Inr r \<Rightarrow> fst (evalDependencies r ''app.min.js'' (disk 10))) =
     Some (Inr [\<lparr>nd_name = None, nd_value = CHR 0x5C # ''1.js''\<rparr>]) \<and>
   create (SimpleDependencyGeneratorAdapter (Template (CHR 0x5C # ''1.js''))) ''app.min.js''
       [Some ''app.min.js'', Some ''app''] =
     Inr [\<lparr>nd_name = None, nd_value = CHR 0x5C # ''1.js''\<rparr>] \<and>
   create (SimpleDependencyGeneratorAdapter (Template ''app.min.js.map'')) ''app.min.js''
       [Some ''app.min.js'', Some ''app''] =
     Inr [\<lparr>nd_name = None, nd_value = ''undefined.map''\<rparr>]"
  by (simp add: build_def addDependency_def RuleBuilder_new_def Rule_new_def
      neitherNullNorUndefined_def evalDependencies_def RegExp_exec_def min_js_def
      groupText_def parseInt_def isWhiteSpace_def isDigit_def Let_def)

section \<open>Rules without dependencies\<close>

text \<open>
  C6. The spec has a rule built without a dependency generator yield no dependencies.
  \<open>build\<close> passes \<^verbatim>\<open>null\<close> to the constructor, whose assertion rejects it before the
  fallback to \<open>NoDependencies\<close> is reached: no such rule can be built, through
  \<open>RuleBuilder\<close> or through \<open>PipelineBuilder\<close>.
\<close>

theorem build_without_dependencies:
  "build compile (addDecorators ds (setAction act (RuleBuilder_new (Inr pat) None))) =
     Inl (TypeError ''dependencies must not be null!'') \<and>
   PipelineBuilder_add compile (Inr pat) (setAction act) ruleSet =
     Inl (TypeError ''dependencies must not be null!'')"
  by (simp add: PipelineBuilder_add_def build_def addDecorators_def setAction_def
      RuleBuilder_new_def Rule_new_def neitherNullNorUndefined_def)

end
